theory Spec2Isabelle
  imports Main "HOL-Library.Word" "HOL-Library.Char_ord" "HOL-Library.List_Lexorder"
begin

unbundle bit_operations_syntax

section \<open>The SHA-256 and SHA-Infinity hashing modules\<close>

text \<open>
  A shallow embedding of \<^verbatim>\<open>.kanban/hashing/sha256.js\<close> and
  \<^verbatim>\<open>.kanban/hashing/sha-infinity.js\<close>.

  Conventions of the embedding:
  \<^item> a JavaScript string is a \<open>string\<close>: its code units are below 256, one \<open>char\<close>
    each (every string the modules build themselves is ASCII);
  \<^item> \<open>depth\<close>, \<open>difficulty\<close>, \<open>nonce\<close> and timestamps are integers, as the
    specification types them (\<open>int\<close>, or \<open>nat\<close> for a count that cannot be negative);
  \<^item> a parameter with a default value (\<^verbatim>\<open>depth = DEFAULT_CONFIG.defaultDepth\<close>,
    \<^verbatim>\<open>options = {}\<close>) is an argument of the model: the value the call passes, or the
    default when the call omits it;
  \<^item> a \<^verbatim>\<open>throw\<close> is the \<open>Inl\<close> branch of a result of type \<open>error + 'a\<close>;
  \<^item> the module-level facts that the code reads from its surroundings (whether
    \<^verbatim>\<open>require('crypto')\<close> gave a module, whether \<^verbatim>\<open>window.crypto.subtle\<close> exists, what
    the SHA-256 function is, what \<^verbatim>\<open>Date.now()\<close> returns) are explicit arguments.
\<close>

subsection \<open>Errors\<close>

datatype error =
    DepthTooLow          \<comment> \<open>\<^verbatim>\<open>Depth must be at least 1\<close>\<close>
  | DepthTooHigh         \<comment> \<open>\<^verbatim>\<open>Depth cannot exceed 256\<close>\<close>
  | DepthOutOfRange      \<comment> \<open>\<^verbatim>\<open>Depth must be between 1 and 256\<close>\<close>
  | UseAsync             \<comment> \<open>\<^verbatim>\<open>Use sha256Async for browser environments\<close>\<close>
  | NoCrypto             \<comment> \<open>\<^verbatim>\<open>No crypto implementation available\<close>\<close>

subsection \<open>Number and byte rendering of the platform\<close>

text \<open>
  \<^verbatim>\<open>n.toString(radix)\<close> for a non-negative integer and a radix from 2 to 36: digits
  without leading zeros.
\<close>

definition digit_char :: "nat \<Rightarrow> char" where
  "digit_char n = ''0123456789abcdefghijklmnopqrstuvwxyz'' ! n"

fun toString_radix :: "nat \<Rightarrow> nat \<Rightarrow> string" where
  "toString_radix r n =
     (if r < 2 \<or> n < r then [digit_char n]
      else toString_radix r (n div r) @ [digit_char (n mod r)])"

declare toString_radix.simps [simp del]

text \<open>String conversion of an integer, as string concatenation with a number does it.\<close>

definition number_toString :: "int \<Rightarrow> string" where
  "number_toString i =
     (if i < 0 then CHR ''-'' # toString_radix 10 (nat (- i)) else toString_radix 10 (nat i))"

text \<open>\<^verbatim>\<open>s.padStart(n, c)\<close> with a one-character filler.\<close>

definition padStart :: "nat \<Rightarrow> char \<Rightarrow> string \<Rightarrow> string" where
  "padStart n c s = replicate (n - length s) c @ s"

text \<open>\<^verbatim>\<open>digest('hex')\<close> of Node's hash object: two lowercase hex digits for each byte.\<close>

definition hex_byte :: "8 word \<Rightarrow> string" where
  "hex_byte b = [digit_char (unat b div 16), digit_char (unat b mod 16)]"

definition digest_hex :: "8 word list \<Rightarrow> string" where
  "digest_hex bs = concat (map hex_byte bs)"

subsection \<open>The environment of the modules\<close>

text \<open>
  \<open>node_crypto\<close>: the module-level \<^verbatim>\<open>crypto\<close> of \<^verbatim>\<open>sha256.js\<close> is not null
  (\<^verbatim>\<open>require\<close> exists and \<^verbatim>\<open>require('crypto')\<close> gave the module). \<open>web_crypto\<close>:
  \<^verbatim>\<open>window.crypto.subtle\<close> exists. \<open>sha256_bytes\<close>: the SHA-256 digest of the UTF-8
  encoding of a string, which both back ends compute.

  \<^verbatim>\<open>sha-infinity.js\<close> itself calls \<^verbatim>\<open>require('./sha256')\<close> when it is loaded, so wherever
  its functions exist \<^verbatim>\<open>require\<close> exists: \<open>node_crypto\<close> is the standing assumption of
  the properties of its synchronous functions.
\<close>

record env =
  node_crypto :: bool
  web_crypto :: bool
  sha256_bytes :: "string \<Rightarrow> 8 word list"

subsection \<open>\<^verbatim>\<open>sha256.js\<close>: the base digest\<close>

definition sha256 :: "env \<Rightarrow> string \<Rightarrow> error + string" where
  "sha256 env data =
     (if node_crypto env then Inr (digest_hex (sha256_bytes env data))
      else if web_crypto env then Inl UseAsync
      else Inl NoCrypto)"

definition sha256Async :: "env \<Rightarrow> string \<Rightarrow> error + string" where
  "sha256Async env data =
     (if web_crypto env then
        (let hashArray = sha256_bytes env data
         in Inr (concat (map (\<lambda>b. padStart 2 CHR ''0'' (toString_radix 16 (unat b))) hashArray)))
      else sha256 env data)"

subsection \<open>\<^verbatim>\<open>sha-infinity.js\<close>: configuration and options\<close>

record config =
  defaultDepth :: int
  maxDepth :: int
  minDepth :: int
  parallelThreshold :: int
  cacheEnabled :: bool
  salt :: string

definition DEFAULT_CONFIG :: config where
  "DEFAULT_CONFIG =
     \<lparr>defaultDepth = 7, maxDepth = 256, minDepth = 1, parallelThreshold = 1000,
      cacheEnabled = True, salt = ''blackroad-infinity''\<rparr>"

text \<open>
  The \<^verbatim>\<open>options\<close> argument: a field that is absent (\<open>None\<close>) takes its default in the
  destructuring at the head of \<^verbatim>\<open>shaInfinity\<close>.
\<close>

record options =
  opt_useSalt :: "bool option"
  opt_salt :: "string option"
  opt_includeDepthInHash :: "bool option"

definition no_options :: options where
  "no_options = \<lparr>opt_useSalt = None, opt_salt = None, opt_includeDepthInHash = None\<rparr>"

definition or_default :: "'a option \<Rightarrow> 'a \<Rightarrow> 'a" where
  "or_default x d = (case x of None \<Rightarrow> d | Some v \<Rightarrow> v)"

subsection \<open>The chained hash\<close>

text \<open>The loop \<^verbatim>\<open>for (let i = 1; i < depth; i++) currentHash = sha256(currentHash)\<close>.\<close>

function rehash_loop :: "env \<Rightarrow> int \<Rightarrow> int \<Rightarrow> string \<Rightarrow> error + string" where
  "rehash_loop env depth i currentHash =
     (if i < depth then
        (case sha256 env currentHash of
           Inl e \<Rightarrow> Inl e
         | Inr h \<Rightarrow> rehash_loop env depth (i + 1) h)
      else Inr currentHash)"
  by pat_completeness auto
termination
  by (relation "measure (\<lambda>(env, depth, i, currentHash). nat (depth - i))") auto

declare rehash_loop.simps [simp del]

definition shaInfinity :: "env \<Rightarrow> string \<Rightarrow> int \<Rightarrow> options \<Rightarrow> error + string" where
  "shaInfinity env data depth opts =
     (let useSalt = or_default (opt_useSalt opts) True;
          salt = or_default (opt_salt opts) (salt DEFAULT_CONFIG);
          includeDepthInHash = or_default (opt_includeDepthInHash opts) True
      in if depth < minDepth DEFAULT_CONFIG then Inl DepthTooLow
         else if depth > maxDepth DEFAULT_CONFIG then Inl DepthTooHigh
         else
           (case (if useSalt then sha256 env (salt @ '':'' @ data) else sha256 env data) of
              Inl e \<Rightarrow> Inl e
            | Inr seed \<Rightarrow>
                (case rehash_loop env depth 1 seed of
                   Inl e \<Rightarrow> Inl e
                 | Inr currentHash \<Rightarrow>
                     if includeDepthInHash
                     then sha256 env (currentHash @ '':depth:'' @ number_toString depth)
                     else Inr currentHash)))"

function rehash_loop_async :: "env \<Rightarrow> int \<Rightarrow> int \<Rightarrow> string \<Rightarrow> error + string" where
  "rehash_loop_async env depth i currentHash =
     (if i < depth then
        (case sha256Async env currentHash of
           Inl e \<Rightarrow> Inl e
         | Inr h \<Rightarrow> rehash_loop_async env depth (i + 1) h)
      else Inr currentHash)"
  by pat_completeness auto
termination
  by (relation "measure (\<lambda>(env, depth, i, currentHash). nat (depth - i))") auto

declare rehash_loop_async.simps [simp del]

text \<open>The value the promise of \<^verbatim>\<open>shaInfinityAsync\<close> settles with (\<open>Inl\<close>: it rejects).\<close>

definition shaInfinityAsync :: "env \<Rightarrow> string \<Rightarrow> int \<Rightarrow> options \<Rightarrow> error + string" where
  "shaInfinityAsync env data depth opts =
     (let useSalt = or_default (opt_useSalt opts) True;
          salt = or_default (opt_salt opts) (salt DEFAULT_CONFIG);
          includeDepthInHash = or_default (opt_includeDepthInHash opts) True
      in if depth < minDepth DEFAULT_CONFIG \<or> depth > maxDepth DEFAULT_CONFIG
         then Inl DepthOutOfRange
         else
           (case (if useSalt then sha256Async env (salt @ '':'' @ data)
                  else sha256Async env data) of
              Inl e \<Rightarrow> Inl e
            | Inr seed \<Rightarrow>
                (case rehash_loop_async env depth 1 seed of
                   Inl e \<Rightarrow> Inl e
                 | Inr currentHash \<Rightarrow>
                     if includeDepthInHash
                     then sha256Async env (currentHash @ '':depth:'' @ number_toString depth)
                     else Inr currentHash)))"

subsection \<open>\<^verbatim>\<open>sha256.js\<close>: the canonical serializer\<close>

text \<open>
  The values \<^verbatim>\<open>stableStringify\<close> is specified for: null, booleans, numbers, strings,
  arrays and plain objects. Numbers are the integers that JavaScript prints in plain
  decimal digits. An object is the list of its own properties in insertion order;
  property names are distinct in an object.
\<close>

datatype json =
    JNull
  | JBool bool
  | JNumber int
  | JString string
  | JArray "json list"
  | JObject "(string \<times> json) list"

text \<open>\<^verbatim>\<open>JSON.stringify\<close> of a string: quoted, with the escapes of the JSON grammar.\<close>

definition json_escape :: "char \<Rightarrow> string" where
  "json_escape c =
     (if c = CHR 0x08 then [CHR 0x5C, CHR ''b'']
      else if c = CHR 0x09 then [CHR 0x5C, CHR ''t'']
      else if c = CHR 0x0A then [CHR 0x5C, CHR ''n'']
      else if c = CHR 0x0C then [CHR 0x5C, CHR ''f'']
      else if c = CHR 0x0D then [CHR 0x5C, CHR ''r'']
      else if c = CHR 0x22 then [CHR 0x5C, CHR 0x22]
      else if c = CHR 0x5C then [CHR 0x5C, CHR 0x5C]
      else if (of_char c :: nat) < 32
        then [CHR 0x5C, CHR ''u''] @ padStart 4 CHR ''0'' (toString_radix 16 (of_char c))
      else [c])"

definition JSON_stringify_string :: "string \<Rightarrow> string" where
  "JSON_stringify_string s = [CHR 0x22] @ concat (map json_escape s) @ [CHR 0x22]"

text \<open>\<^verbatim>\<open>parts.join(sep)\<close>.\<close>

fun array_join :: "string \<Rightarrow> string list \<Rightarrow> string" where
  "array_join sep [] = []"
| "array_join sep [x] = x"
| "array_join sep (x # y # ys) = x @ sep @ array_join sep (y # ys)"

lemma size_object_value:
  "(k, v) \<in> set kvs \<Longrightarrow> size v < Suc (size_list (size_prod (\<lambda>_. 0) size) kvs)"
  by (induction kvs) auto

text \<open>
  \<^verbatim>\<open>Object.keys(obj).sort()\<close> orders the property names by their code units;
  \<^verbatim>\<open>obj[key]\<close> of a name that is not a property is \<^verbatim>\<open>undefined\<close>, which a
  concatenation prints as \<^verbatim>\<open>undefined\<close>.
\<close>

function stableStringify :: "json \<Rightarrow> string" where
  "stableStringify JNull = ''null''"
| "stableStringify (JBool b) = (if b then ''true'' else ''false'')"
| "stableStringify (JNumber n) = number_toString n"
| "stableStringify (JString s) = JSON_stringify_string s"
| "stableStringify (JArray xs) = ''['' @ array_join '','' (map stableStringify xs) @ '']''"
| "stableStringify (JObject kvs) =
     (let keys = sort (map fst kvs);
          pairs = map (\<lambda>key.
                    let value = (case map_of kvs key of
                                   None \<Rightarrow> ''undefined''
                                 | Some v \<Rightarrow> stableStringify v)
                    in JSON_stringify_string key @ '':'' @ value) keys
      in ''{'' @ array_join '','' pairs @ ''}'')"
  by pat_completeness auto
termination
proof (relation "measure size")
  fix kvs :: "(string \<times> json) list" and keys key v
  assume "map_of kvs key = Some v"
  then have "(key, v) \<in> set kvs" by (rule map_of_SomeD)
  then show "(v, JObject kvs) \<in> measure size"
    using size_object_value [of key v kvs] by simp
qed (auto simp: less_Suc_eq_le size_list_estimation')

subsection \<open>State integrity records\<close>

record integrity =
  rec_sha256 :: string       \<comment> \<open>the field \<^verbatim>\<open>sha256\<close>\<close>
  sha_infinity :: string
  chain_depth :: int
  timestamp :: int
  version :: string
  algorithm :: string

record verification =
  valid :: bool
  sha256_valid :: bool
  sha_infinity_valid :: bool
  checked_at :: int
  original_timestamp :: int

text \<open>\<open>now\<close> is what \<^verbatim>\<open>Date.now()\<close> returns during the call.\<close>

definition createStateIntegrity :: "env \<Rightarrow> int \<Rightarrow> json \<Rightarrow> int \<Rightarrow> error + integrity" where
  "createStateIntegrity env now state depth =
     (let stateJson = stableStringify state
      in case sha256 env stateJson of
           Inl e \<Rightarrow> Inl e
         | Inr plain \<Rightarrow>
             (case shaInfinity env stateJson depth no_options of
                Inl e \<Rightarrow> Inl e
              | Inr chained \<Rightarrow>
                  Inr \<lparr>rec_sha256 = plain, sha_infinity = chained, chain_depth = depth,
                       timestamp = now, version = ''1.0.0'',
                       algorithm = ''sha-infinity-v1''\<rparr>))"

definition verifyStateIntegrity :: "env \<Rightarrow> int \<Rightarrow> json \<Rightarrow> integrity \<Rightarrow> error + verification" where
  "verifyStateIntegrity env now state integrity =
     (let stateJson = stableStringify state
      in case sha256 env stateJson of
           Inl e \<Rightarrow> Inl e
         | Inr plain \<Rightarrow>
             (let sha256Valid = (plain = rec_sha256 integrity)
              in case shaInfinity env stateJson (chain_depth integrity) no_options of
                   Inl e \<Rightarrow> Inl e
                 | Inr chained \<Rightarrow>
                     (let infinityValid = (chained = sha_infinity integrity)
                      in Inr \<lparr>valid = sha256Valid \<and> infinityValid,
                              sha256_valid = sha256Valid,
                              sha_infinity_valid = infinityValid,
                              checked_at = now,
                              original_timestamp = timestamp integrity\<rparr>)))"

subsection \<open>The Merkle aggregator\<close>

text \<open>
  \<^verbatim>\<open>hashes[i]\<close> is \<^verbatim>\<open>undefined\<close> (\<open>None\<close>) past the end of the array, and
  \<^verbatim>\<open>x || left\<close> takes \<open>left\<close> when \<open>x\<close> is \<^verbatim>\<open>undefined\<close> or the empty string.
\<close>

definition at_index :: "'a list \<Rightarrow> nat \<Rightarrow> 'a option" where
  "at_index xs i = (if i < length xs then Some (xs ! i) else None)"

definition or_else :: "string option \<Rightarrow> string \<Rightarrow> string" where
  "or_else x left = (case x of None \<Rightarrow> left | Some r \<Rightarrow> if r = [] then left else r)"

definition no_depth_options :: options where
  "no_depth_options =
     \<lparr>opt_useSalt = None, opt_salt = None, opt_includeDepthInHash = Some False\<rparr>"

text \<open>The loop \<^verbatim>\<open>for (let i = 0; i < hashes.length; i += 2)\<close> that fills \<^verbatim>\<open>paired\<close>.\<close>

function pair_loop :: "env \<Rightarrow> string list \<Rightarrow> int \<Rightarrow> nat \<Rightarrow> string list \<Rightarrow> error + string list" where
  "pair_loop env hashes depth i paired =
     (if i < length hashes then
        (let left = hashes ! i;
             right = or_else (at_index hashes (i + 1)) left
         in case shaInfinity env (left @ right) depth no_depth_options of
              Inl e \<Rightarrow> Inl e
            | Inr h \<Rightarrow> pair_loop env hashes depth (i + 2) (paired @ [h]))
      else Inr paired)"
  by pat_completeness auto
termination
  by (relation "measure (\<lambda>(env, hashes, depth, i, paired). length hashes - i)") auto

declare pair_loop.simps [simp del]

lemma pair_loop_length:
  "pair_loop env hashes depth i paired = Inr out \<Longrightarrow>
   length out = length paired + (length hashes - i + 1) div 2"
proof (induction env hashes depth i paired rule: pair_loop.induct)
  case (1 env hashes depth i paired)
  show ?case
  proof (cases "i < length hashes")
    case True
    with "1.prems" obtain h where
      h: "shaInfinity env (hashes ! i @ or_else (at_index hashes (i + 1)) (hashes ! i)) depth
            no_depth_options = Inr h"
      and rest: "pair_loop env hashes depth (i + 2) (paired @ [h]) = Inr out"
      by (subst (asm) pair_loop.simps) (auto simp: Let_def split: sum.splits)
    from "1.IH" [OF True refl refl h rest]
    have "length out = length paired + 1 + (length hashes - (i + 2) + 1) div 2" by simp
    with True show ?thesis by arith
  next
    case False
    with "1.prems" show ?thesis by (subst (asm) pair_loop.simps) auto
  qed
qed

function infinityMerkleRoot :: "env \<Rightarrow> string list \<Rightarrow> int \<Rightarrow> error + string" where
  "infinityMerkleRoot env hashes depth =
     (if length hashes = 0 then shaInfinity env ''empty'' depth no_options
      else if length hashes = 1 then Inr (hashes ! 0)
      else (case pair_loop env hashes depth 0 [] of
              Inl e \<Rightarrow> Inl e
            | Inr paired \<Rightarrow> infinityMerkleRoot env paired depth))"
  by pat_completeness auto
termination
proof (relation "measure (\<lambda>(env, hashes, depth). length hashes)")
  fix env :: env and hashes :: "string list" and depth :: int and paired
  assume ne: "length hashes \<noteq> 0" "length hashes \<noteq> 1"
  assume "pair_loop env hashes depth 0 [] = Inr paired"
  then have "length paired = (length hashes + 1) div 2"
    using pair_loop_length [of env hashes depth 0 "[]" paired] by simp
  with ne have "length paired < length hashes" by arith
  then show "((env, paired, depth), (env, hashes, depth))
               \<in> measure (\<lambda>(env, hashes, depth). length hashes)"
    by simp
qed simp

declare infinityMerkleRoot.simps [simp del]

subsection \<open>Proof of work\<close>

definition startsWith :: "string \<Rightarrow> string \<Rightarrow> bool" where
  "startsWith s p = (take (length p) s = p)"

text \<open>
  The \<^verbatim>\<open>do ... while\<close> loop: it returns the last hash and the value of \<^verbatim>\<open>nonce\<close> after
  the last increment.
\<close>

function pow_loop :: "env \<Rightarrow> string \<Rightarrow> string \<Rightarrow> int \<Rightarrow> nat \<Rightarrow> error + string \<times> nat" where
  "pow_loop env data prefix depth nonce =
     (case shaInfinity env (data @ '':'' @ number_toString (int nonce)) depth
             no_depth_options of
        Inl e \<Rightarrow> Inl e
      | Inr hash \<Rightarrow>
          if \<not> startsWith hash prefix \<and> nonce + 1 < 10000000
          then pow_loop env data prefix depth (nonce + 1)
          else Inr (hash, nonce + 1))"
  by pat_completeness auto
termination
  by (relation "measure (\<lambda>(env, data, prefix, depth, nonce). 10000000 - nonce)") auto

declare pow_loop.simps [simp del]

record pow_result =
  hash :: string
  nonce :: nat
  attempts :: nat
  verified :: bool

definition proofOfWork :: "env \<Rightarrow> string \<Rightarrow> nat \<Rightarrow> int \<Rightarrow> error + pow_result" where
  "proofOfWork env data difficulty depth =
     (let prefix = replicate difficulty CHR ''0''
      in case pow_loop env data prefix depth 0 of
           Inl e \<Rightarrow> Inl e
         | Inr (h, n) \<Rightarrow>
             Inr \<lparr>hash = h, nonce = n - 1, attempts = n, verified = startsWith h prefix\<rparr>)"

section \<open>The platform digest: SHA-256\<close>

text \<open>
  The function that \<^verbatim>\<open>crypto.createHash('sha256')\<close> and \<^verbatim>\<open>crypto.subtle.digest('SHA-256', _)\<close>
  compute (FIPS 180-4), on the UTF-8 encoding of the string. It gives the concrete
  environment \<open>node_env\<close> of a Node.js process, at which the model can be run.
\<close>

definition rotr :: "nat \<Rightarrow> 32 word \<Rightarrow> 32 word" where
  "rotr n x = (drop_bit n x) OR (push_bit (32 - n) x)"

definition Ch :: "32 word \<Rightarrow> 32 word \<Rightarrow> 32 word \<Rightarrow> 32 word" where
  "Ch x y z = (x AND y) XOR (NOT x AND z)"

definition Maj :: "32 word \<Rightarrow> 32 word \<Rightarrow> 32 word \<Rightarrow> 32 word" where
  "Maj x y z = (x AND y) XOR (x AND z) XOR (y AND z)"

definition Sigma0 :: "32 word \<Rightarrow> 32 word" where
  "Sigma0 x = rotr 2 x XOR rotr 13 x XOR rotr 22 x"

definition Sigma1 :: "32 word \<Rightarrow> 32 word" where
  "Sigma1 x = rotr 6 x XOR rotr 11 x XOR rotr 25 x"

definition sigma0 :: "32 word \<Rightarrow> 32 word" where
  "sigma0 x = rotr 7 x XOR rotr 18 x XOR drop_bit 3 x"

definition sigma1 :: "32 word \<Rightarrow> 32 word" where
  "sigma1 x = rotr 17 x XOR rotr 19 x XOR drop_bit 10 x"

text \<open>
  The round constants (the first 32 bits of the fractional parts of the cube roots of the
  first 64 primes) and the initial state (of the square roots of the first 8 primes).
\<close>

definition K256 :: "32 word list" where
  "K256 =
     [1116352408, 1899447441, 3049323471, 3921009573, 961987163, 1508970993,
      2453635748, 2870763221, 3624381080, 310598401, 607225278, 1426881987,
      1925078388, 2162078206, 2614888103, 3248222580, 3835390401, 4022224774,
      264347078, 604807628, 770255983, 1249150122, 1555081692, 1996064986,
      2554220882, 2821834349, 2952996808, 3210313671, 3336571891, 3584528711,
      113926993, 338241895, 666307205, 773529912, 1294757372, 1396182291,
      1695183700, 1986661051, 2177026350, 2456956037, 2730485921, 2820302411,
      3259730800, 3345764771, 3516065817, 3600352804, 4094571909, 275423344,
      430227734, 506948616, 659060556, 883997877, 958139571, 1322822218,
      1537002063, 1747873779, 1955562222, 2024104815, 2227730452, 2361852424,
      2428436474, 2756734187, 3204031479, 3329325298]"

definition H256 :: "32 word list" where
  "H256 =
     [1779033703, 3144134277, 1013904242, 2773480762,
      1359893119, 2600822924, 528734635, 1541459225]"

text \<open>The message schedule, newest word first.\<close>

fun schedule :: "nat \<Rightarrow> 32 word list \<Rightarrow> 32 word list" where
  "schedule 0 ws = ws"
| "schedule (Suc n) ws =
     schedule n ((sigma1 (ws ! 1) + ws ! 6 + sigma0 (ws ! 14) + ws ! 15) # ws)"

definition round_step :: "32 word list \<Rightarrow> 32 word \<Rightarrow> 32 word \<Rightarrow> 32 word list" where
  "round_step st t1 t2 =
     (case st of
        [a, b, c, d, e, f, g, h] \<Rightarrow> [t1 + t2, a, b, c, d + t1, e, f, g]
      | _ \<Rightarrow> st)"

fun rounds :: "32 word list \<Rightarrow> 32 word list \<Rightarrow> 32 word list \<Rightarrow> 32 word list" where
  "rounds [a, b, c, d, e, f, g, h] (k # ks) (w # ws) =
     rounds (round_step [a, b, c, d, e, f, g, h]
               (h + Sigma1 e + Ch e f g + k + w) (Sigma0 a + Maj a b c)) ks ws"
| "rounds st ks ws = st"

fun be32 :: "8 word list \<Rightarrow> 32 word list" where
  "be32 (a # b # c # d # rest) =
     (push_bit 24 (ucast a) OR push_bit 16 (ucast b) OR push_bit 8 (ucast c) OR ucast d)
       # be32 rest"
| "be32 rest = []"

definition compress :: "32 word list \<Rightarrow> 8 word list \<Rightarrow> 32 word list" where
  "compress st block = map2 (+) st (rounds st K256 (rev (schedule 48 (rev (be32 block)))))"

function blocks :: "32 word list \<Rightarrow> 8 word list \<Rightarrow> 32 word list" where
  "blocks st bs =
     (if length bs < 64 then st else blocks (compress st (take 64 bs)) (drop 64 bs))"
  by pat_completeness auto
termination
  by (relation "measure (\<lambda>(st, bs). length bs)") auto

declare blocks.simps [simp del]

definition bytes_of_word :: "nat \<Rightarrow> 'a::len word \<Rightarrow> 8 word list" where
  "bytes_of_word n w = map (\<lambda>i. ucast (drop_bit (8 * i) w)) (rev [0..<n])"

definition pad :: "8 word list \<Rightarrow> 8 word list" where
  "pad m = m @ [0x80] @ replicate ((119 - length m mod 64) mod 64) 0
             @ bytes_of_word 8 (8 * of_nat (length m) :: 64 word)"

definition sha256_of_bytes :: "8 word list \<Rightarrow> 8 word list" where
  "sha256_of_bytes m = concat (map (bytes_of_word 4) (blocks H256 (pad m)))"

text \<open>UTF-8 of a string of code units below 256.\<close>

definition utf8 :: "string \<Rightarrow> 8 word list" where
  "utf8 s =
     concat (map (\<lambda>c. let n = (of_char c :: nat)
                      in if n < 128 then [of_nat n]
                         else [of_nat (192 + n div 64), of_nat (128 + n mod 64)]) s)"

definition node_env :: env where
  "node_env =
     \<lparr>node_crypto = True, web_crypto = False, sha256_bytes = (\<lambda>s. sha256_of_bytes (utf8 s))\<rparr>"

section \<open>Properties\<close>

subsection \<open>Closed forms\<close>

text \<open>The hex digest that both back ends give for a string.\<close>

definition base_digest :: "env \<Rightarrow> string \<Rightarrow> string" where
  "base_digest env data = digest_hex (sha256_bytes env data)"

text \<open>
  \<open>n\<close> sequential applications of the base digest: the first to \<open>data\<close>, each later one
  to the hex string the one before returned.
\<close>

fun digest_times :: "env \<Rightarrow> nat \<Rightarrow> string \<Rightarrow> error + string" where
  "digest_times env 0 data = Inr data"
| "digest_times env (Suc n) data =
     (case digest_times env n data of Inl e \<Rightarrow> Inl e | Inr h \<Rightarrow> sha256 env h)"

text \<open>What \<^verbatim>\<open>shaInfinity\<close> returns where it returns.\<close>

definition chain_value :: "env \<Rightarrow> string \<Rightarrow> int \<Rightarrow> options \<Rightarrow> string" where
  "chain_value env data depth opts =
     (let seed_input = (if or_default (opt_useSalt opts) True
                        then or_default (opt_salt opts) (salt DEFAULT_CONFIG) @ '':'' @ data
                        else data);
          currentHash = (base_digest env ^^ nat depth) seed_input
      in if or_default (opt_includeDepthInHash opts) True
         then base_digest env (currentHash @ '':depth:'' @ number_toString depth)
         else currentHash)"


text \<open>One level of pairing, by recursion on the list (the loop \<open>pair_loop\<close> computes it).\<close>

fun pair_list :: "env \<Rightarrow> int \<Rightarrow> string list \<Rightarrow> error + string list" where
  "pair_list env depth [] = Inr []"
| "pair_list env depth [l] =
     (case shaInfinity env (l @ l) depth no_depth_options of
        Inl e \<Rightarrow> Inl e
      | Inr h \<Rightarrow> Inr [h])"
| "pair_list env depth (l # r # rest) =
     (case shaInfinity env (l @ (if r = [] then l else r)) depth no_depth_options of
        Inl e \<Rightarrow> Inl e
      | Inr h \<Rightarrow>
          (case pair_list env depth rest of
             Inl e \<Rightarrow> Inl e
           | Inr hs \<Rightarrow> Inr (h # hs)))"



text \<open>The hash that the proof-of-work loop computes for the nonce \<open>n\<close>.\<close>

definition attempt :: "env \<Rightarrow> string \<Rightarrow> int \<Rightarrow> nat \<Rightarrow> error + string" where
  "attempt env data depth n =
     shaInfinity env (data @ '':'' @ number_toString (int n)) depth no_depth_options"

text \<open>The number of \<^verbatim>\<open>'0'\<close> characters a string starts with.\<close>

definition leading_zeros :: "string \<Rightarrow> nat" where
  "leading_zeros h = length (takeWhile (\<lambda>c. c = CHR ''0'') h)"

lemma digit_char_0: "digit_char 0 = CHR ''0''"
  by (simp add: digit_char_def)

lemma toString_radix_small: "n < 16 \<Longrightarrow> toString_radix 16 n = [digit_char n]"
  by (simp add: toString_radix.simps)

lemma toString_radix_two:
  "16 \<le> n \<Longrightarrow> n < 256 \<Longrightarrow>
   toString_radix 16 n = [digit_char (n div 16), digit_char (n mod 16)]"
  by (subst toString_radix.simps) (simp add: toString_radix_small)

lemma web_hex_byte: "padStart 2 CHR ''0'' (toString_radix 16 (unat (b::8 word))) = hex_byte b"
proof -
  have lt: "unat b < 256" using unsigned_less [of b] by simp
  show ?thesis
  proof (cases "unat b < 16")
    case True
    then show ?thesis
      by (simp add: toString_radix_small padStart_def hex_byte_def digit_char_0)
  next
    case False
    with lt show ?thesis by (simp add: toString_radix_two padStart_def hex_byte_def)
  qed
qed

lemma sha256_node: "node_crypto env \<Longrightarrow> sha256 env data = Inr (base_digest env data)"
  by (simp add: sha256_def base_digest_def)

lemma sha256_no_node:
  "\<not> node_crypto env \<Longrightarrow>
   sha256 env data = Inl (if web_crypto env then UseAsync else NoCrypto)"
  by (simp add: sha256_def)

lemma sha256Async_node:
  "node_crypto env \<Longrightarrow> sha256Async env data = Inr (base_digest env data)"
  by (simp add: sha256Async_def sha256_def base_digest_def digest_hex_def web_hex_byte)

lemma rehash_loop_node:
  "node_crypto env \<Longrightarrow>
   rehash_loop env depth i h = Inr ((base_digest env ^^ nat (depth - i)) h)"
proof (induction env depth i h rule: rehash_loop.induct)
  case (1 env depth i currentHash)
  show ?case
  proof (cases "i < depth")
    case True
    then have n: "nat (depth - i) = Suc (nat (depth - (i + 1)))" by simp
    from True 1 show ?thesis
      by (subst rehash_loop.simps) (simp add: sha256_node n funpow_Suc_right del: funpow.simps)
  next
    case False
    then show ?thesis by (subst rehash_loop.simps) simp
  qed
qed

lemma rehash_loop_async_node:
  "node_crypto env \<Longrightarrow>
   rehash_loop_async env depth i h = Inr ((base_digest env ^^ nat (depth - i)) h)"
proof (induction env depth i h rule: rehash_loop_async.induct)
  case (1 env depth i currentHash)
  show ?case
  proof (cases "i < depth")
    case True
    then have n: "nat (depth - i) = Suc (nat (depth - (i + 1)))" by simp
    from True 1 show ?thesis
      by (subst rehash_loop_async.simps)
        (simp add: sha256Async_node n funpow_Suc_right del: funpow.simps)
  next
    case False
    then show ?thesis by (subst rehash_loop_async.simps) simp
  qed
qed

lemma funpow_pred: "1 \<le> d \<Longrightarrow> (f ^^ nat (d - 1)) (f x) = (f ^^ nat d) x"
proof -
  assume "1 \<le> d"
  then have "nat d = Suc (nat (d - 1))" by simp
  then show ?thesis by (simp add: funpow_Suc_right del: funpow.simps)
qed

lemma shaInfinity_low: "depth < 1 \<Longrightarrow> shaInfinity env data depth opts = Inl DepthTooLow"
  by (simp add: shaInfinity_def DEFAULT_CONFIG_def Let_def)

lemma shaInfinity_high: "256 < depth \<Longrightarrow> shaInfinity env data depth opts = Inl DepthTooHigh"
  by (simp add: shaInfinity_def DEFAULT_CONFIG_def Let_def)

lemma shaInfinity_node:
  assumes "node_crypto env" "1 \<le> depth" "depth \<le> 256"
  shows "shaInfinity env data depth opts = Inr (chain_value env data depth opts)"
  using assms
  by (simp add: shaInfinity_def chain_value_def DEFAULT_CONFIG_def Let_def sha256_node
      rehash_loop_node funpow_pred)

lemma shaInfinityAsync_node:
  assumes "node_crypto env" "1 \<le> depth" "depth \<le> 256"
  shows "shaInfinityAsync env data depth opts = Inr (chain_value env data depth opts)"
  using assms
  by (simp add: shaInfinityAsync_def chain_value_def DEFAULT_CONFIG_def Let_def
      sha256Async_node rehash_loop_async_node funpow_pred)

lemma shaInfinity_no_node:
  assumes "\<not> node_crypto env" "1 \<le> depth" "depth \<le> 256"
  shows "shaInfinity env data depth opts = Inl (if web_crypto env then UseAsync else NoCrypto)"
  using assms by (simp add: shaInfinity_def DEFAULT_CONFIG_def Let_def sha256_no_node)

lemma digest_times_node:
  "node_crypto env \<Longrightarrow> digest_times env n data = Inr ((base_digest env ^^ n) data)"
  by (induction n) (simp_all add: sha256_node)

lemma digest_times_no_node:
  "\<not> node_crypto env \<Longrightarrow>
   digest_times env (Suc n) data = Inl (if web_crypto env then UseAsync else NoCrypto)"
  by (induction n) (simp_all add: sha256_no_node)

lemma node_env_crypto: "node_crypto node_env"
  by (simp add: node_env_def)


lemma createStateIntegrity_node:
  assumes "node_crypto env" "1 \<le> depth" "depth \<le> 256"
  shows "createStateIntegrity env now state depth =
         Inr \<lparr>rec_sha256 = base_digest env (stableStringify state),
              sha_infinity = chain_value env (stableStringify state) depth no_options,
              chain_depth = depth, timestamp = now, version = ''1.0.0'',
              algorithm = ''sha-infinity-v1''\<rparr>"
  using assms by (simp add: createStateIntegrity_def Let_def sha256_node shaInfinity_node)

lemma verifyStateIntegrity_node:
  assumes "node_crypto env" "1 \<le> chain_depth r" "chain_depth r \<le> 256"
  shows "verifyStateIntegrity env now state r =
         Inr \<lparr>valid = (base_digest env (stableStringify state) = rec_sha256 r
                       \<and> chain_value env (stableStringify state) (chain_depth r) no_options
                           = sha_infinity r),
              sha256_valid = (base_digest env (stableStringify state) = rec_sha256 r),
              sha_infinity_valid =
                (chain_value env (stableStringify state) (chain_depth r) no_options
                   = sha_infinity r),
              checked_at = now, original_timestamp = timestamp r\<rparr>"
  using assms by (simp add: verifyStateIntegrity_def Let_def sha256_node shaInfinity_node)

lemma verifyStateIntegrity_checks:
  assumes "node_crypto env" "1 \<le> chain_depth r" "chain_depth r \<le> 256"
  shows "\<exists>v. verifyStateIntegrity env now state r = Inr v
           \<and> (sha256_valid v \<longleftrightarrow> sha256 env (stableStringify state) = Inr (rec_sha256 r))
           \<and> (sha_infinity_valid v \<longleftrightarrow>
                 shaInfinity env (stableStringify state) (chain_depth r) no_options
                   = Inr (sha_infinity r))
           \<and> (valid v \<longleftrightarrow> sha256_valid v \<and> sha_infinity_valid v)
           \<and> checked_at v = now \<and> original_timestamp v = timestamp r"
  using assms by (simp add: verifyStateIntegrity_node sha256_node shaInfinity_node)

lemma verifyStateIntegrity_depth_errors:
  assumes "node_crypto env"
  shows "chain_depth r < 1 \<Longrightarrow> verifyStateIntegrity env now state r = Inl DepthTooLow"
    and "256 < chain_depth r \<Longrightarrow> verifyStateIntegrity env now state r = Inl DepthTooHigh"
  using assms
  by (simp_all add: verifyStateIntegrity_def Let_def sha256_node shaInfinity_low shaInfinity_high)

lemma pair_loop_pair_list:
  "pair_loop env hashes depth i paired =
     (case pair_list env depth (drop i hashes) of
        Inl e \<Rightarrow> Inl e
      | Inr hs \<Rightarrow> Inr (paired @ hs))"
proof (induction env hashes depth i paired rule: pair_loop.induct)
  case (1 env hashes depth i paired)
  show ?case
  proof (cases "i < length hashes")
    case False
    then show ?thesis by (subst pair_loop.simps) simp
  next
    case True
    note i = this
    show ?thesis
    proof (cases "i + 1 < length hashes")
      case True
      then have d: "drop i hashes = hashes ! i # hashes ! (i + 1) # drop (i + 2) hashes"
        using i by (simp add: Cons_nth_drop_Suc)
      show ?thesis
        using i True "1.IH"
        by (subst pair_loop.simps)
          (simp add: d at_index_def or_else_def Let_def split: sum.splits)
    next
      case False
      with i have d: "drop i hashes = [hashes ! i]" "drop (i + 2) hashes = []"
        using Cons_nth_drop_Suc [of i hashes] by simp_all
      show ?thesis
        using i False "1.IH"
        by (subst pair_loop.simps)
          (simp add: d at_index_def or_else_def Let_def split: sum.splits)
    qed
  qed
qed

lemma pair_loop_0: "pair_loop env hashes depth 0 [] = pair_list env depth hashes"
  by (simp add: pair_loop_pair_list split: sum.splits)


lemma pair_list_empty_right:
  "even (length hs) \<Longrightarrow>
   pair_list env depth (hs @ l # [] # rest) = pair_list env depth (hs @ l # l # rest)"
  by (induction env depth hs rule: pair_list.induct) (auto split: sum.splits)




lemma infinityMerkleRoot_level:
  "2 \<le> length hashes \<Longrightarrow>
   infinityMerkleRoot env hashes depth =
     (case pair_list env depth hashes of
        Inl e \<Rightarrow> Inl e
      | Inr paired \<Rightarrow> infinityMerkleRoot env paired depth)"
proof -
  assume "2 \<le> length hashes"
  then have "length hashes \<noteq> 0" "length hashes \<noteq> 1" by auto
  then show ?thesis
    by (subst infinityMerkleRoot.simps) (simp only: if_False pair_loop_0)
qed



lemma startsWith_zeros:
  "startsWith h (replicate n CHR ''0'') \<longleftrightarrow> n \<le> leading_zeros h"
proof (induction h arbitrary: n)
  case Nil
  then show ?case by (simp add: startsWith_def leading_zeros_def)
next
  case (Cons c h)
  show ?case
  proof (cases n)
    case 0
    then show ?thesis by (simp add: startsWith_def)
  next
    case (Suc m)
    with Cons [of m] show ?thesis
      by (auto simp: startsWith_def leading_zeros_def)
  qed
qed

lemma pow_loop_result:
  "pow_loop env data prefix depth n = Inr (h, m) \<Longrightarrow>
   n < m \<and> (m \<le> 10000000 \<or> m = n + 1)
   \<and> attempt env data depth (m - 1) = Inr h
   \<and> (startsWith h prefix \<or> 10000000 \<le> m)"
proof (induction env data prefix depth n rule: pow_loop.induct)
  case (1 env data prefix depth n)
  from "1.prems" obtain x where x: "attempt env data depth n = Inr x"
    by (subst (asm) pow_loop.simps) (auto simp: attempt_def split: sum.splits)
  show ?case
  proof (cases "\<not> startsWith x prefix \<and> n + 1 < 10000000")
    case True
    with "1.prems" x have "pow_loop env data prefix depth (n + 1) = Inr (h, m)"
      by (subst (asm) pow_loop.simps) (simp add: attempt_def)
    from "1.IH" [OF x [unfolded attempt_def] True this] True show ?thesis by auto
  next
    case False
    with "1.prems" x have "h = x" "m = n + 1"
      by (subst (asm) pow_loop.simps; auto simp: attempt_def)+
    with False x show ?thesis by auto
  qed
qed

lemma pow_loop_returns:
  assumes "node_crypto env" "1 \<le> depth" "depth \<le> 256"
  shows "\<exists>h m. pow_loop env data prefix depth n = Inr (h, m)"
  using assms
proof (induction env data prefix depth n rule: pow_loop.induct)
  case (1 env data prefix depth n)
  let ?x = "chain_value env (data @ '':'' @ number_toString (int n)) depth no_depth_options"
  have x: "shaInfinity env (data @ '':'' @ number_toString (int n)) depth no_depth_options
             = Inr ?x"
    using "1.prems" by (simp add: shaInfinity_node)
  show ?case
  proof (cases "\<not> startsWith ?x prefix \<and> n + 1 < 10000000")
    case True
    from "1.IH" [OF x True "1.prems"] True x show ?thesis
      by (subst pow_loop.simps) simp
  next
    case False
    with x show ?thesis by (subst pow_loop.simps) auto
  qed
qed

lemma proofOfWork_result:
  assumes "node_crypto env" and "1 \<le> depth" and "depth \<le> 256"
  shows "\<exists>r. proofOfWork env data difficulty depth = Inr r
           \<and> 1 \<le> attempts r \<and> attempts r \<le> 10000000
           \<and> nonce r = attempts r - 1
           \<and> attempt env data depth (nonce r) = Inr (hash r)
           \<and> (verified r \<longleftrightarrow> startsWith (hash r) (replicate difficulty CHR ''0''))
           \<and> (\<not> verified r \<longrightarrow> attempts r = 10000000)"
proof -
  let ?p = "replicate difficulty CHR ''0''"
  from pow_loop_returns [OF assms] obtain h m
    where l: "pow_loop env data ?p depth 0 = Inr (h, m)" by blast
  from pow_loop_result [OF l]
  have "0 < m" "m \<le> 10000000" "attempt env data depth (m - 1) = Inr h"
    "startsWith h ?p \<or> 10000000 \<le> m"
    by auto
  then show ?thesis
    by (auto simp: proofOfWork_def Let_def l)
qed

lemma length_bytes_of_word: "length (bytes_of_word n w) = n"
  by (simp add: bytes_of_word_def)

lemma length_round_step: "length (round_step st t1 t2) = length st"
  by (simp add: round_step_def split: list.splits)

lemma length_rounds: "length (rounds st ks ws) = length st"
  by (induction st ks ws rule: rounds.induct) (simp_all add: length_round_step)

lemma length_compress: "length st = 8 \<Longrightarrow> length (compress st block) = 8"
  by (simp add: compress_def length_rounds)

lemma length_blocks: "length st = 8 \<Longrightarrow> length (blocks st bs) = 8"
proof (induction st bs rule: blocks.induct)
  case (1 st bs)
  then show ?case by (subst blocks.simps) (simp add: length_compress)
qed

lemma length_concat_bytes: "length (concat (map (bytes_of_word 4) ws)) = 4 * length ws"
  by (induction ws) (simp_all add: length_bytes_of_word)

lemma length_sha256_of_bytes: "length (sha256_of_bytes m) = 32"
  by (simp add: sha256_of_bytes_def length_concat_bytes length_blocks H256_def)

lemma length_digest_hex: "length (digest_hex bs) = 2 * length bs"
  by (induction bs) (simp_all add: digest_hex_def hex_byte_def)

lemma length_node_digest: "length (base_digest node_env s) = 64"
  by (simp add: base_digest_def node_env_def length_digest_hex length_sha256_of_bytes)

lemma node_chain_length:
  "1 \<le> depth \<Longrightarrow> length (chain_value node_env data depth opts) = 64"
proof -
  assume "1 \<le> depth"
  then obtain n where n: "nat depth = Suc n" by (cases "nat depth") auto
  show ?thesis by (simp add: chain_value_def Let_def n length_node_digest)
qed

lemma sha256_dd:
  "sha256_of_bytes (utf8 ''blackroad-infinity:dd:0'') =
     [0, 11, 173, 3, 130, 232, 174, 84, 122, 12, 70, 180, 128, 8, 178, 145, 100, 255, 81, 52, 143, 72, 60, 224, 20, 148, 185, 24, 244, 111, 38, 121]"
  by code_simp

lemma base_digest_dd:
  "base_digest node_env ''blackroad-infinity:dd:0'' =
     ''000bad0382e8ae547a0c46b48008b29164ff51348f483ce01494b918f46f2679''"
  by (simp add: base_digest_def node_env_def sha256_dd digest_hex_def hex_byte_def digit_char_def)





lemma attempt_dd_0:
  "attempt node_env ''dd'' 1 0 = Inr ''000bad0382e8ae547a0c46b48008b29164ff51348f483ce01494b918f46f2679''"
proof -
  have "chain_value node_env ''dd:0'' 1 no_depth_options
          = base_digest node_env ''blackroad-infinity:dd:0''"
    by (simp add: chain_value_def no_depth_options_def or_default_def DEFAULT_CONFIG_def)
  then show ?thesis
    by (simp add: attempt_def shaInfinity_node node_env_crypto base_digest_dd
        number_toString_def toString_radix.simps digit_char_def)
qed

lemma pow_loop_dd:
  "pow_loop node_env ''dd'' ''0'' 1 0 = Inr (''000bad0382e8ae547a0c46b48008b29164ff51348f483ce01494b918f46f2679'', 1)"
  using attempt_dd_0
  by (subst pow_loop.simps) (simp add: attempt_def startsWith_def)

lemma attempt_node_never_65:
  "attempt node_env data 1 k = Inr h \<Longrightarrow> \<not> startsWith h (replicate 65 CHR ''0'')"
proof -
  assume "attempt node_env data 1 k = Inr h"
  then have "length h = 64"
    by (auto simp: attempt_def shaInfinity_node node_env_crypto node_chain_length)
  then have "length (take 65 h) \<noteq> length (replicate 65 CHR ''0'')" by simp
  then show ?thesis unfolding startsWith_def by (metis length_replicate)
qed

subsection \<open>Claims about the chained hash\<close>

text \<open>
  C2. For a depth \<open>d\<close> from 1 to 256, \<^verbatim>\<open>shaInfinity\<close> without salt and without the depth
  in the hash is \<open>d\<close> sequential applications of \<^verbatim>\<open>sha256\<close>, the first to the data and
  each later one to the hex digest before it; at depth 1 it is \<^verbatim>\<open>sha256(data)\<close>. (Where
  no synchronous back end exists, both sides fail with the same error.)
\<close>

theorem shaInfinity_plain_chain:
  assumes "1 \<le> depth" and "depth \<le> 256"
  shows "shaInfinity env data depth
           \<lparr>opt_useSalt = Some False, opt_salt = s, opt_includeDepthInHash = Some False\<rparr>
         = digest_times env (nat depth) data
       \<and> shaInfinity env data 1
           \<lparr>opt_useSalt = Some False, opt_salt = s, opt_includeDepthInHash = Some False\<rparr>
         = sha256 env data"
proof (cases "node_crypto env")
  case True
  with assms show ?thesis
    by (simp add: shaInfinity_node chain_value_def or_default_def digest_times_node sha256_node)
next
  case False
  from assms obtain n where n: "nat depth = Suc n" by (cases "nat depth") auto
  from False assms show ?thesis
    by (simp add: shaInfinity_no_node n digest_times_no_node sha256_no_node
        del: digest_times.simps)
qed

theorem shaInfinity_plain_chain_witness:
  "(1::int) \<le> 3 \<and> (3::int) \<le> 256
   \<and> shaInfinity node_env ''hello'' 3
        \<lparr>opt_useSalt = Some False, opt_salt = None, opt_includeDepthInHash = Some False\<rparr>
     = (case sha256 node_env ''hello'' of
          Inl e \<Rightarrow> Inl e
        | Inr h1 \<Rightarrow>
            (case sha256 node_env h1 of
               Inl e \<Rightarrow> Inl e
             | Inr h2 \<Rightarrow> sha256 node_env h2))
   \<and> shaInfinity node_env ''hello'' 1
        \<lparr>opt_useSalt = Some False, opt_salt = None, opt_includeDepthInHash = Some False\<rparr>
     = sha256 node_env ''hello''"
  using shaInfinity_plain_chain [of 3 node_env "''hello''" None]
  by (simp add: numeral_3_eq_3 split: sum.splits)

text \<open>
  C3. Depth 0 and depth 257 fail with the depth errors, in every environment and for every
  digest function, so before anything is digested; with the synchronous back end present,
  depth 1 and depth 256 return a digest, and the call fails if and only if the depth is
  outside 1..256.
\<close>

theorem shaInfinity_depth_bounds:
  "shaInfinity env data 0 opts = Inl DepthTooLow
   \<and> shaInfinity env data 257 opts = Inl DepthTooHigh
   \<and> (depth < 1 \<longrightarrow> shaInfinity env data depth opts = Inl DepthTooLow)
   \<and> (256 < depth \<longrightarrow> shaInfinity env data depth opts = Inl DepthTooHigh)
   \<and> (node_crypto env \<longrightarrow>
        (\<exists>digest. shaInfinity env data 1 opts = Inr digest)
      \<and> (\<exists>digest. shaInfinity env data 256 opts = Inr digest)
      \<and> (isl (shaInfinity env data depth opts) \<longleftrightarrow> depth < 1 \<or> 256 < depth))"
proof -
  have ok: "\<not> isl (shaInfinity env data d opts)" if "node_crypto env" "1 \<le> d" "d \<le> 256" for d
    using that by (simp add: shaInfinity_node)
  have iff: "isl (shaInfinity env data depth opts) \<longleftrightarrow> depth < 1 \<or> 256 < depth"
    if "node_crypto env"
  proof (cases "depth < 1 \<or> 256 < depth")
    case True
    then show ?thesis
      using shaInfinity_low [of depth env data opts] shaInfinity_high [of depth env data opts]
      by auto
  next
    case False
    then show ?thesis using ok [of depth] that by auto
  qed
  show ?thesis
    using iff by (simp add: shaInfinity_low shaInfinity_high shaInfinity_node)
qed

theorem shaInfinity_depth_bounds_witness:
  "node_crypto node_env
   \<and> shaInfinity node_env ''d'' 0 no_options = Inl DepthTooLow
   \<and> shaInfinity node_env ''d'' 257 no_options = Inl DepthTooHigh
   \<and> (\<exists>digest. shaInfinity node_env ''d'' 1 no_options = Inr digest)
   \<and> (\<exists>digest. shaInfinity node_env ''d'' 256 no_options = Inr digest)
   \<and> isl (shaInfinity node_env ''d'' 300 no_options)
   \<and> \<not> isl (shaInfinity node_env ''d'' 7 no_options)"
  using shaInfinity_depth_bounds [of node_env "''d''" no_options 300]
    shaInfinity_depth_bounds [of node_env "''d''" no_options 7]
  by (simp add: node_env_crypto)

text \<open>
  C9. For a depth from 1 to 256 and any options, the promise of \<^verbatim>\<open>shaInfinityAsync\<close>
  settles with the digest string that \<^verbatim>\<open>shaInfinity\<close> returns, whether the asynchronous
  path goes through \<^verbatim>\<open>crypto.subtle\<close> (and renders the bytes itself) or falls back to
  the synchronous digest. The synchronous back end is assumed present:
  \<^verbatim>\<open>sha-infinity.js\<close> calls \<^verbatim>\<open>require\<close> when it is loaded, so where its functions exist
  \<^verbatim>\<open>sha256.js\<close> found \<^verbatim>\<open>require\<close> too.
\<close>

theorem shaInfinityAsync_same_digest:
  assumes "node_crypto env" and "1 \<le> depth" and "depth \<le> 256"
  shows "shaInfinityAsync env data depth opts = shaInfinity env data depth opts
       \<and> (\<exists>digest. shaInfinity env data depth opts = Inr digest)"
  using assms by (simp add: shaInfinity_node shaInfinityAsync_node)

theorem shaInfinityAsync_same_digest_witness:
  "node_crypto (node_env\<lparr>web_crypto := True\<rparr>) \<and> (1::int) \<le> 7 \<and> (7::int) \<le> 256
   \<and> shaInfinityAsync (node_env\<lparr>web_crypto := True\<rparr>) ''state'' 7 no_options
     = shaInfinity (node_env\<lparr>web_crypto := True\<rparr>) ''state'' 7 no_options
   \<and> (\<exists>digest. shaInfinity (node_env\<lparr>web_crypto := True\<rparr>) ''state'' 7 no_options = Inr digest)"
  using shaInfinityAsync_same_digest [of "node_env\<lparr>web_crypto := True\<rparr>" 7 "''state''" no_options]
  by (simp add: node_env_crypto)

subsection \<open>Claims about the canonical serializer\<close>



subsection \<open>Claims about integrity records\<close>

text \<open>
  C1. For every state and every depth from 1 to 256, \<^verbatim>\<open>createStateIntegrity\<close> returns a
  record that carries that depth, the plain digest of the serialized state and its chained
  digest at that depth, and \<^verbatim>\<open>verifyStateIntegrity\<close> of the same state against it returns
  \<^verbatim>\<open>valid\<close>, \<^verbatim>\<open>sha256_valid\<close> and \<^verbatim>\<open>sha_infinity_valid\<close> all true. Verification of any
  state against any record recomputes both digests from the serialized state:
  \<^verbatim>\<open>sha256_valid\<close> says that the plain digest is the one in the record,
  \<^verbatim>\<open>sha_infinity_valid\<close> that the chained digest at the depth stored in the record
  (\<^verbatim>\<open>integrity.chain_depth\<close>; the function has no depth argument) is the one in the record,
  and \<^verbatim>\<open>valid\<close> is their conjunction; a stored depth outside 1..256 makes it fail with
  the depth error.
\<close>

theorem integrity_round_trip:
  assumes "node_crypto env" and "1 \<le> depth" and "depth \<le> 256"
  shows "(\<exists>r. createStateIntegrity env created state depth = Inr r
            \<and> chain_depth r = depth
            \<and> sha256 env (stableStringify state) = Inr (rec_sha256 r)
            \<and> shaInfinity env (stableStringify state) depth no_options = Inr (sha_infinity r)
            \<and> verifyStateIntegrity env checked state r =
                Inr \<lparr>valid = True, sha256_valid = True, sha_infinity_valid = True,
                     checked_at = checked, original_timestamp = created\<rparr>)
       \<and> (1 \<le> chain_depth r' \<and> chain_depth r' \<le> 256 \<longrightarrow>
            (\<exists>v. verifyStateIntegrity env checked state' r' = Inr v
               \<and> (sha256_valid v \<longleftrightarrow>
                     sha256 env (stableStringify state') = Inr (rec_sha256 r'))
               \<and> (sha_infinity_valid v \<longleftrightarrow>
                     shaInfinity env (stableStringify state') (chain_depth r') no_options
                       = Inr (sha_infinity r'))
               \<and> (valid v \<longleftrightarrow> sha256_valid v \<and> sha_infinity_valid v)))
       \<and> (chain_depth r' < 1 \<longrightarrow>
            verifyStateIntegrity env checked state' r' = Inl DepthTooLow)
       \<and> (256 < chain_depth r' \<longrightarrow>
            verifyStateIntegrity env checked state' r' = Inl DepthTooHigh)"
proof -
  have made: "\<exists>r. createStateIntegrity env created state depth = Inr r
            \<and> chain_depth r = depth
            \<and> sha256 env (stableStringify state) = Inr (rec_sha256 r)
            \<and> shaInfinity env (stableStringify state) depth no_options = Inr (sha_infinity r)
            \<and> verifyStateIntegrity env checked state r =
                Inr \<lparr>valid = True, sha256_valid = True, sha_infinity_valid = True,
                     checked_at = checked, original_timestamp = created\<rparr>"
    using assms
    by (simp add: createStateIntegrity_node verifyStateIntegrity_node sha256_node
        shaInfinity_node)
  have checks: "\<exists>v. verifyStateIntegrity env checked state' r' = Inr v
               \<and> (sha256_valid v \<longleftrightarrow>
                     sha256 env (stableStringify state') = Inr (rec_sha256 r'))
               \<and> (sha_infinity_valid v \<longleftrightarrow>
                     shaInfinity env (stableStringify state') (chain_depth r') no_options
                       = Inr (sha_infinity r'))
               \<and> (valid v \<longleftrightarrow> sha256_valid v \<and> sha_infinity_valid v)"
    if "1 \<le> chain_depth r'" "chain_depth r' \<le> 256"
    using verifyStateIntegrity_checks [OF assms(1) that, of checked state'] by blast
  from made checks verifyStateIntegrity_depth_errors [OF assms(1), of r' checked state']
  show ?thesis by blast
qed

theorem integrity_round_trip_witness:
  "node_crypto node_env
   \<and> 1 \<le> defaultDepth DEFAULT_CONFIG \<and> defaultDepth DEFAULT_CONFIG \<le> 256
   \<and> (1::int) \<le> 12 \<and> (12::int) \<le> 256
   \<and> (\<exists>r. createStateIntegrity node_env 1000 (JObject [(''cards'', JArray [JString ''todo''])])
                (defaultDepth DEFAULT_CONFIG)
              = Inr r
          \<and> chain_depth r = 7
          \<and> verifyStateIntegrity node_env 2000 (JObject [(''cards'', JArray [JString ''todo''])]) r
              = Inr \<lparr>valid = True, sha256_valid = True, sha_infinity_valid = True,
                     checked_at = 2000, original_timestamp = 1000\<rparr>)
   \<and> (\<exists>r. createStateIntegrity node_env 1000 (JObject [(''cards'', JArray [JString ''todo''])]) 12
              = Inr r
          \<and> chain_depth r = 12
          \<and> verifyStateIntegrity node_env 2000 (JObject [(''cards'', JArray [JString ''todo''])]) r
              = Inr \<lparr>valid = True, sha256_valid = True, sha_infinity_valid = True,
                     checked_at = 2000, original_timestamp = 1000\<rparr>)
   \<and> (\<exists>v. verifyStateIntegrity node_env 2000 (JObject [(''cards'', JArray [JString ''todo''])])
               \<lparr>rec_sha256 = '''', sha_infinity = '''', chain_depth = 12, timestamp = 1000,
                version = ''1.0.0'', algorithm = ''sha-infinity-v1''\<rparr>
             = Inr v
          \<and> \<not> sha256_valid v \<and> \<not> sha_infinity_valid v \<and> \<not> valid v)
   \<and> verifyStateIntegrity node_env 2000 (JObject [(''cards'', JArray [JString ''todo''])])
         \<lparr>rec_sha256 = '''', sha_infinity = '''', chain_depth = 0, timestamp = 1000,
          version = ''1.0.0'', algorithm = ''sha-infinity-v1''\<rparr>
       = Inl DepthTooLow
   \<and> verifyStateIntegrity node_env 2000 (JObject [(''cards'', JArray [JString ''todo''])])
         \<lparr>rec_sha256 = '''', sha_infinity = '''', chain_depth = 300, timestamp = 1000,
          version = ''1.0.0'', algorithm = ''sha-infinity-v1''\<rparr>
       = Inl DepthTooHigh"
proof -
  let ?state = "JObject [(''cards'', JArray [JString ''todo''])]"
  let ?bad = "\<lambda>d. \<lparr>rec_sha256 = '''', sha_infinity = '''', chain_depth = d, timestamp = 1000,
                version = ''1.0.0'', algorithm = ''sha-infinity-v1''\<rparr>"
  have plain: "sha256 node_env (stableStringify ?state) \<noteq> Inr ''''"
    using length_node_digest [of "stableStringify ?state"]
    by (auto simp: sha256_node node_env_crypto simp del: stableStringify.simps)
  have chained: "shaInfinity node_env (stableStringify ?state) 12 no_options \<noteq> Inr ''''"
    using node_chain_length [of 12 "stableStringify ?state" no_options]
    by (auto simp: shaInfinity_node node_env_crypto simp del: stableStringify.simps)
  have default_depth: "\<exists>r. createStateIntegrity node_env 1000 ?state (defaultDepth DEFAULT_CONFIG)
              = Inr r
          \<and> chain_depth r = 7
          \<and> verifyStateIntegrity node_env 2000 ?state r
              = Inr \<lparr>valid = True, sha256_valid = True, sha_infinity_valid = True,
                     checked_at = 2000, original_timestamp = 1000\<rparr>"
    using integrity_round_trip
      [where env = node_env and depth = "defaultDepth DEFAULT_CONFIG" and created = 1000
         and state = ?state and checked = 2000]
    by (auto simp: node_env_crypto DEFAULT_CONFIG_def simp del: stableStringify.simps)
  have twelve: "(\<exists>r. createStateIntegrity node_env 1000 ?state 12 = Inr r
          \<and> chain_depth r = 12
          \<and> verifyStateIntegrity node_env 2000 ?state r
              = Inr \<lparr>valid = True, sha256_valid = True, sha_infinity_valid = True,
                     checked_at = 2000, original_timestamp = 1000\<rparr>)
     \<and> (\<exists>v. verifyStateIntegrity node_env 2000 ?state (?bad 12) = Inr v
          \<and> \<not> sha256_valid v \<and> \<not> sha_infinity_valid v \<and> \<not> valid v)"
    using integrity_round_trip
      [where env = node_env and depth = 12 and created = 1000 and state = ?state
         and checked = 2000 and state' = ?state and r' = "?bad 12"]
      plain chained
    by (auto simp: node_env_crypto simp del: stableStringify.simps)
  have low: "verifyStateIntegrity node_env 2000 ?state (?bad 0) = Inl DepthTooLow"
    using integrity_round_trip
      [where env = node_env and depth = 12 and checked = 2000 and state' = ?state
         and r' = "?bad 0"]
    by (simp add: node_env_crypto del: stableStringify.simps)
  have high: "verifyStateIntegrity node_env 2000 ?state (?bad 300) = Inl DepthTooHigh"
    using integrity_round_trip
      [where env = node_env and depth = 12 and checked = 2000 and state' = ?state
         and r' = "?bad 300"]
    by (simp add: node_env_crypto del: stableStringify.simps)
  from default_depth twelve low high show ?thesis
    by (simp add: node_env_crypto DEFAULT_CONFIG_def del: stableStringify.simps)
qed

text \<open>
  C8, as the specification states it, fails: \<^verbatim>\<open>verifyStateIntegrity\<close> never reads
  \<^verbatim>\<open>integrity.algorithm\<close>. A record made by \<^verbatim>\<open>createStateIntegrity\<close> whose algorithm is
  then replaced by \<^verbatim>\<open>md5\<close> verifies as valid, with nothing flagged.
\<close>

theorem verifyStateIntegrity_unknown_algorithm:
  "(case createStateIntegrity node_env 1000 (JObject [(''cards'', JArray [])]) 7 of
      Inl e \<Rightarrow> False
    | Inr r \<Rightarrow>
        algorithm (r\<lparr>algorithm := ''md5''\<rparr>) \<noteq> ''sha-infinity-v1''
      \<and> verifyStateIntegrity node_env 2000 (JObject [(''cards'', JArray [])])
            (r\<lparr>algorithm := ''md5''\<rparr>)
          = Inr \<lparr>valid = True, sha256_valid = True, sha_infinity_valid = True,
                 checked_at = 2000, original_timestamp = 1000\<rparr>)"
  by (simp add: createStateIntegrity_node verifyStateIntegrity_node node_env_crypto)

text \<open>
  C8, amended. \<^verbatim>\<open>verifyStateIntegrity\<close> does not reject or flag a record whose
  \<^verbatim>\<open>algorithm\<close> is unrecognized: it never reads the field, and verifies the record exactly
  as it verifies a current-version record (the result is the same with any algorithm
  identifier, and its checks compare the two digests only).
\<close>

theorem verifyStateIntegrity_ignores_algorithm:
  "verifyStateIntegrity env now state (r\<lparr>algorithm := a\<rparr>)
     = verifyStateIntegrity env now state r
   \<and> (node_crypto env \<and> 1 \<le> chain_depth r \<and> chain_depth r \<le> 256 \<longrightarrow>
        (\<exists>v. verifyStateIntegrity env now state (r\<lparr>algorithm := a\<rparr>) = Inr v
           \<and> (sha256_valid v \<longleftrightarrow> sha256 env (stableStringify state) = Inr (rec_sha256 r))
           \<and> (sha_infinity_valid v \<longleftrightarrow>
                 shaInfinity env (stableStringify state) (chain_depth r) no_options
                   = Inr (sha_infinity r))
           \<and> (valid v \<longleftrightarrow> sha256_valid v \<and> sha_infinity_valid v)))"
proof -
  have same: "verifyStateIntegrity env now state (r\<lparr>algorithm := a\<rparr>)
     = verifyStateIntegrity env now state r"
    by (simp add: verifyStateIntegrity_def Let_def split: sum.splits)
  have "\<exists>v. verifyStateIntegrity env now state (r\<lparr>algorithm := a\<rparr>) = Inr v
           \<and> (sha256_valid v \<longleftrightarrow> sha256 env (stableStringify state) = Inr (rec_sha256 r))
           \<and> (sha_infinity_valid v \<longleftrightarrow>
                 shaInfinity env (stableStringify state) (chain_depth r) no_options
                   = Inr (sha_infinity r))
           \<and> (valid v \<longleftrightarrow> sha256_valid v \<and> sha_infinity_valid v)"
    if "node_crypto env" "1 \<le> chain_depth r" "chain_depth r \<le> 256"
    using verifyStateIntegrity_checks [OF that, of now state] unfolding same by blast
  with same show ?thesis by blast
qed

theorem verifyStateIntegrity_ignores_algorithm_witness:
  "node_crypto node_env \<and> (1::int) \<le> 7 \<and> (7::int) \<le> 256
   \<and> verifyStateIntegrity node_env 2000 (JObject [(''cards'', JArray [])])
         \<lparr>rec_sha256 = '''', sha_infinity = '''', chain_depth = 7, timestamp = 1000,
          version = ''1.0.0'', algorithm = ''md5''\<rparr>
     = verifyStateIntegrity node_env 2000 (JObject [(''cards'', JArray [])])
         \<lparr>rec_sha256 = '''', sha_infinity = '''', chain_depth = 7, timestamp = 1000,
          version = ''1.0.0'', algorithm = ''sha-infinity-v1''\<rparr>
   \<and> (\<exists>v. verifyStateIntegrity node_env 2000 (JObject [(''cards'', JArray [])])
               \<lparr>rec_sha256 = '''', sha_infinity = '''', chain_depth = 7, timestamp = 1000,
                version = ''1.0.0'', algorithm = ''md5''\<rparr>
             = Inr v
          \<and> \<not> sha256_valid v \<and> \<not> sha_infinity_valid v \<and> \<not> valid v)"
proof -
  let ?state = "JObject [(''cards'', JArray [])]"
  let ?r = "\<lparr>rec_sha256 = '''', sha_infinity = '''', chain_depth = 7, timestamp = 1000,
             version = ''1.0.0'', algorithm = ''sha-infinity-v1''\<rparr>"
  have plain: "sha256 node_env (stableStringify ?state) \<noteq> Inr ''''"
    using length_node_digest [of "stableStringify ?state"]
    by (auto simp: sha256_node node_env_crypto simp del: stableStringify.simps)
  have chained: "shaInfinity node_env (stableStringify ?state) 7 no_options \<noteq> Inr ''''"
    using node_chain_length [of 7 "stableStringify ?state" no_options]
    by (auto simp: shaInfinity_node node_env_crypto simp del: stableStringify.simps)
  let ?md5 = "\<lparr>rec_sha256 = '''', sha_infinity = '''', chain_depth = 7, timestamp = 1000,
             version = ''1.0.0'', algorithm = ''md5''\<rparr>"
  note inst = verifyStateIntegrity_ignores_algorithm
      [where env = node_env and now = 2000 and state = ?state and r = ?r and a = "''md5''"]
  have upd: "?r\<lparr>algorithm := ''md5''\<rparr> = ?md5" by simp
  have hyp: "node_crypto node_env \<and> 1 \<le> chain_depth ?r \<and> chain_depth ?r \<le> 256"
    by (simp add: node_env_crypto)
  from inst have same: "verifyStateIntegrity node_env 2000 ?state (?r\<lparr>algorithm := ''md5''\<rparr>)
      = verifyStateIntegrity node_env 2000 ?state ?r"
    by blast
  from inst hyp obtain v where
    v: "verifyStateIntegrity node_env 2000 ?state (?r\<lparr>algorithm := ''md5''\<rparr>) = Inr v"
    and p: "sha256_valid v \<longleftrightarrow> sha256 node_env (stableStringify ?state) = Inr (rec_sha256 ?r)"
    and c: "sha_infinity_valid v \<longleftrightarrow>
       shaInfinity node_env (stableStringify ?state) (chain_depth ?r) no_options
         = Inr (sha_infinity ?r)"
    and b: "valid v \<longleftrightarrow> sha256_valid v \<and> sha_infinity_valid v"
    by blast
  from p plain have np: "\<not> sha256_valid v" by (simp del: stableStringify.simps)
  from c chained have nc: "\<not> sha_infinity_valid v" by (simp del: stableStringify.simps)
  from b np have nv: "\<not> valid v" by simp
  from v np nc nv have ex: "\<exists>v. verifyStateIntegrity node_env 2000 ?state ?md5 = Inr v
          \<and> \<not> sha256_valid v \<and> \<not> sha_infinity_valid v \<and> \<not> valid v"
    unfolding upd by blast
  from same have "verifyStateIntegrity node_env 2000 ?state ?md5
      = verifyStateIntegrity node_env 2000 ?state ?r"
    unfolding upd .
  with ex show ?thesis
    using node_env_crypto by simp
qed

subsection \<open>Claims about the Merkle aggregator\<close>




text \<open>
  C10. An empty string as the right partner of a pair is replaced by the left partner:
  the root of \<open>[h, ""]\<close> is the root of \<open>[h, h]\<close>, and the same holds for an empty string
  at any right-partner position of a list, at the level of the pairing and of the root.
\<close>

theorem infinityMerkleRoot_empty_right:
  "infinityMerkleRoot env [h, []] depth = infinityMerkleRoot env [h, h] depth
   \<and> (even (length hs) \<longrightarrow>
        pair_loop env (hs @ l # [] # rest) depth 0 []
          = pair_loop env (hs @ l # l # rest) depth 0 []
      \<and> infinityMerkleRoot env (hs @ l # [] # rest) depth
          = infinityMerkleRoot env (hs @ l # l # rest) depth)"
proof -
  have two: "infinityMerkleRoot env [h, []] depth = infinityMerkleRoot env [h, h] depth"
    by (simp add: infinityMerkleRoot_level)
  have level: "pair_loop env (hs @ l # [] # rest) depth 0 []
          = pair_loop env (hs @ l # l # rest) depth 0 []"
    if "even (length hs)"
    using that by (simp add: pair_loop_0 pair_list_empty_right)
  have root: "infinityMerkleRoot env (hs @ l # [] # rest) depth
          = infinityMerkleRoot env (hs @ l # l # rest) depth"
    if "even (length hs)"
    using that by (simp add: infinityMerkleRoot_level pair_list_empty_right)
  show ?thesis using two level root by blast
qed

theorem infinityMerkleRoot_empty_right_witness:
  "even (length [''a1'', ''b2''])
   \<and> infinityMerkleRoot node_env [''a1'', []] 7 = infinityMerkleRoot node_env [''a1'', ''a1''] 7
   \<and> pair_loop node_env [''a1'', ''b2'', ''c3'', [], ''d4''] 7 0 []
       = pair_loop node_env [''a1'', ''b2'', ''c3'', ''c3'', ''d4''] 7 0 []
   \<and> infinityMerkleRoot node_env [''a1'', ''b2'', ''c3'', [], ''d4''] 7
       = infinityMerkleRoot node_env [''a1'', ''b2'', ''c3'', ''c3'', ''d4''] 7"
  using infinityMerkleRoot_empty_right
    [where env = node_env and depth = 7 and h = "''a1''" and hs = "[''a1'', ''b2'']"
       and l = "''c3''" and rest = "[''d4'']"]
  by simp

subsection \<open>Claims about the proof of work\<close>

text \<open>
  C6, as the specification states it, fails: \<^verbatim>\<open>verified\<close> means that the hash starts
  with \<^verbatim>\<open>difficulty\<close> zeros, not that it starts with exactly that many. With the data
  \<^verbatim>\<open>dd\<close>, difficulty 1 and depth 1 the first attempt (nonce 0) is verified, and its hash
  starts with three zeros.
\<close>

theorem proofOfWork_not_exact:
  "proofOfWork node_env ''dd'' 1 1 =
     Inr \<lparr>hash = ''000bad0382e8ae547a0c46b48008b29164ff51348f483ce01494b918f46f2679'',
          nonce = 0, attempts = 1, verified = True\<rparr>
   \<and> leading_zeros ''000bad0382e8ae547a0c46b48008b29164ff51348f483ce01494b918f46f2679'' = 3"
  by (simp add: proofOfWork_def pow_loop_dd startsWith_def leading_zeros_def)

text \<open>
  C6, amended. With the synchronous back end present and a depth from 1 to 256,
  \<^verbatim>\<open>proofOfWork\<close> returns a result (it never fails and always stops) with
  \<open>1 \<le> attempts \<le> 10000000\<close> and \<open>nonce = attempts - 1\<close>; \<^verbatim>\<open>hash\<close> is the hash of the
  attempt with that nonce; \<^verbatim>\<open>verified\<close> is true exactly when the hash has at least
  \<^verbatim>\<open>difficulty\<close> leading zeros; and when no attempt below 10000000 has such a hash,
  \<^verbatim>\<open>verified\<close> is false and \<^verbatim>\<open>attempts\<close> is 10000000.
\<close>

theorem proofOfWork_valid:
  assumes "node_crypto env" and "1 \<le> depth" and "depth \<le> 256"
  shows "\<exists>r. proofOfWork env data difficulty depth = Inr r
           \<and> 1 \<le> attempts r \<and> attempts r \<le> 10000000
           \<and> nonce r = attempts r - 1
           \<and> attempt env data depth (nonce r) = Inr (hash r)
           \<and> (verified r \<longleftrightarrow> startsWith (hash r) (replicate difficulty CHR ''0''))
           \<and> (verified r \<longleftrightarrow> difficulty \<le> leading_zeros (hash r))
           \<and> (\<not> verified r \<longrightarrow> attempts r = 10000000)
           \<and> ((\<forall>k<10000000. \<forall>h. attempt env data depth k = Inr h
                   \<longrightarrow> \<not> startsWith h (replicate difficulty CHR ''0''))
                \<longrightarrow> \<not> verified r \<and> attempts r = 10000000)"
proof -
  from proofOfWork_result [OF assms, of data difficulty] obtain r where
    r: "proofOfWork env data difficulty depth = Inr r"
      "1 \<le> attempts r" "attempts r \<le> 10000000" "nonce r = attempts r - 1"
      "attempt env data depth (nonce r) = Inr (hash r)"
      "verified r \<longleftrightarrow> startsWith (hash r) (replicate difficulty CHR ''0'')"
      "\<not> verified r \<longrightarrow> attempts r = 10000000"
    by blast
  have z: "verified r \<longleftrightarrow> difficulty \<le> leading_zeros (hash r)"
    using r(6) by (simp add: startsWith_zeros)
  have ex: "\<not> verified r \<and> attempts r = 10000000"
    if all: "\<forall>k<10000000. \<forall>h. attempt env data depth k = Inr h
                   \<longrightarrow> \<not> startsWith h (replicate difficulty CHR ''0'')"
  proof -
    from r(2,3,4) have "nonce r < 10000000" by simp
    with all r(5) have "\<not> startsWith (hash r) (replicate difficulty CHR ''0'')" by blast
    with r(6,7) show ?thesis by simp
  qed
  from r z ex show ?thesis by blast
qed

theorem proofOfWork_valid_witness:
  "node_crypto node_env \<and> (1::int) \<le> 1 \<and> (1::int) \<le> 256
   \<and> (\<exists>r. proofOfWork node_env ''dd'' 1 1 = Inr r
          \<and> verified r \<and> attempts r = 1 \<and> nonce r = 0 \<and> 1 \<le> leading_zeros (hash r))
   \<and> (\<exists>r. proofOfWork node_env ''dd'' 65 1 = Inr r
          \<and> \<not> verified r \<and> attempts r = 10000000 \<and> nonce r = 9999999)"
proof -
  have found: "\<exists>r. proofOfWork node_env ''dd'' 1 1 = Inr r
          \<and> verified r \<and> attempts r = 1 \<and> nonce r = 0 \<and> 1 \<le> leading_zeros (hash r)"
    using proofOfWork_valid [OF node_env_crypto, of 1 "''dd''" 1]
    by (auto simp: proofOfWork_def pow_loop_dd startsWith_def)
  have never: "\<forall>k<10000000. \<forall>h. attempt node_env ''dd'' 1 k = Inr h
                   \<longrightarrow> \<not> startsWith h (replicate 65 CHR ''0'')"
    using attempt_node_never_65 by blast
  have exhausted: "\<exists>r. proofOfWork node_env ''dd'' 65 1 = Inr r
          \<and> \<not> verified r \<and> attempts r = 10000000 \<and> nonce r = 9999999"
    using proofOfWork_valid [OF node_env_crypto, of 1 "''dd''" 65] never
    by auto
  from found exhausted show ?thesis by (simp add: node_env_crypto)
qed

end
